theory Spec2Isabelle
  imports Main "HOL-Library.Sublist"
begin

section \<open>Configuration (backend/config/config.py)\<close>

text \<open>
  The process environment is a finite map from variable names to strings.
  \<open>os.getenv(key, default)\<close> returns the variable's string when it is set and the
  default, whatever its Python type, when it is not.
\<close>

datatype pyval = PyStr string | PyInt int | PyBool bool | PyNone

type_synonym environ = "string \<rightharpoonup> string"

definition getenv :: "environ \<Rightarrow> string \<Rightarrow> pyval \<Rightarrow> pyval" where
  "getenv env key dflt = (case env key of Some v \<Rightarrow> PyStr v | None \<Rightarrow> dflt)"

text \<open>The two class attributes of \<open>Config\<close> that read \<open>CELERY_RESULT_BACKEND\<close>.\<close>

definition WORKER_CONNECTIONS :: "environ \<Rightarrow> pyval" where
  "WORKER_CONNECTIONS env = getenv env ''CELERY_RESULT_BACKEND'' (PyInt 1000)"

definition CELERY_RESULT_BACKEND :: "environ \<Rightarrow> pyval" where
  "CELERY_RESULT_BACKEND env =
     getenv env ''CELERY_RESULT_BACKEND'' (PyStr ''mongodb://database/flask'')"

section \<open>Python strings and POSIX paths\<close>

text \<open>
  A Python \<open>str\<close> is modelled as a \<open>string\<close> whose characters are the code points
  below 256. \<open>py_isspace\<close> lists the code points in that range for which
  \<open>str.isspace\<close> holds; \<open>str.strip()\<close> removes them at both ends.
\<close>

definition py_isspace :: "char \<Rightarrow> bool" where
  "py_isspace c \<longleftrightarrow>
     c \<in> set [CHR 0x09, CHR 0x0A, CHR 0x0B, CHR 0x0C, CHR 0x0D, CHR 0x1C, CHR 0x1D,
               CHR 0x1E, CHR 0x1F, CHR 0x20, CHR 0x85, CHR 0xA0]"

definition py_strip :: "string \<Rightarrow> string" where
  "py_strip s = rev (dropWhile py_isspace (rev (dropWhile py_isspace s)))"

text \<open>\<open>s.split(sep)\<close> for a separator of one character: never the empty list.\<close>

fun split_on :: "char \<Rightarrow> string \<Rightarrow> string list" where
  "split_on sep [] = [[]]"
| "split_on sep (c # cs) =
     (let rest = split_on sep cs
      in if c = sep then [] # rest else (c # hd rest) # tl rest)"

text \<open>\<open>s.rfind(c)\<close>: the index of the last occurrence, or -1.\<close>

fun last_index :: "char \<Rightarrow> string \<Rightarrow> nat option" where
  "last_index c [] = None"
| "last_index c (x # xs) =
     (case last_index c xs of
        Some i \<Rightarrow> Some (Suc i)
      | None \<Rightarrow> if x = c then Some 0 else None)"

definition rfind :: "string \<Rightarrow> char \<Rightarrow> int" where
  "rfind s c = (case last_index c s of Some i \<Rightarrow> int i | None \<Rightarrow> - 1)"

text \<open>
  \<open>os.path.join(a, b)\<close> of posixpath, one step of its loop; a call with three
  arguments is two steps, from the left.
\<close>

definition path_join :: "string \<Rightarrow> string \<Rightarrow> string" where
  "path_join a b =
     (if b \<noteq> [] \<and> hd b = CHR ''/'' then b
      else if a = [] \<or> last a = CHR ''/'' then a @ b
      else a @ ''/'' @ b)"

text \<open>
  \<open>os.path.splitext\<close>: the extension starts at the last dot of the last component,
  unless that component consists of leading dots only up to there.
\<close>

definition splitext :: "string \<Rightarrow> string \<times> string" where
  "splitext p =
     (let sepIndex = rfind p CHR ''/'';
          dotIndex = rfind p CHR ''.''
      in if dotIndex > sepIndex \<and>
            list_ex (\<lambda>c. c \<noteq> CHR ''.'')
              (take (nat (dotIndex - (sepIndex + 1))) (drop (nat (sepIndex + 1)) p))
         then (take (nat dotIndex) p, drop (nat dotIndex) p)
         else (p, []))"

text \<open>\<open>os.path.dirname\<close>.\<close>

definition dirname :: "string \<Rightarrow> string" where
  "dirname p =
     (let head = take (nat (rfind p CHR ''/'' + 1)) p
      in if head \<noteq> [] \<and> \<not> list_all (\<lambda>c. c = CHR ''/'') head
         then rev (dropWhile (\<lambda>c. c = CHR ''/'') (rev head))
         else head)"

section \<open>The file system\<close>

text \<open>
  The file system is a store from path strings to nodes. A regular file holds its
  content as the text that \<open>open(path).read()\<close> returns. Paths are the strings that
  \<open>os.path.join\<close> builds; they are not normalised, and permissions are not modelled.
\<close>

datatype node = Dir | File string

type_synonym fs = "string \<rightharpoonup> node"

datatype pyerr =
    FileNotFoundError
  | IsADirectoryError
  | FileExistsError
  | SameFileError
  | CsvError
  | UnidentifiedImageError
  | TypeError
  | Exception string

definition exists :: "fs \<Rightarrow> string \<Rightarrow> bool" where
  "exists fs p \<longleftrightarrow> fs p \<noteq> None"

definition isdir :: "fs \<Rightarrow> string \<Rightarrow> bool" where
  "isdir fs p \<longleftrightarrow> fs p = Some Dir"

definition isfile :: "fs \<Rightarrow> string \<Rightarrow> bool" where
  "isfile fs p \<longleftrightarrow> (case fs p of Some (File c) \<Rightarrow> True | _ \<Rightarrow> False)"

text \<open>\<open>open(p)\<close> followed by \<open>read()\<close>.\<close>

definition open_read :: "fs \<Rightarrow> string \<Rightarrow> pyerr + string" where
  "open_read fs p =
     (case fs p of
        None \<Rightarrow> Inl FileNotFoundError
      | Some Dir \<Rightarrow> Inl IsADirectoryError
      | Some (File c) \<Rightarrow> Inr c)"

text \<open>
  Creating or truncating a file for writing needs the directory that holds it; a path
  with a trailing slash, or one that names a directory, cannot be opened for writing.
\<close>

definition parent_ok :: "fs \<Rightarrow> string \<Rightarrow> bool" where
  "parent_ok fs p \<longleftrightarrow>
     (let d = dirname p in d = [] \<or> list_all (\<lambda>c. c = CHR ''/'') d \<or> fs d = Some Dir)"

definition open_write :: "fs \<Rightarrow> string \<Rightarrow> pyerr + unit" where
  "open_write fs p =
     (if p = [] then Inl FileNotFoundError
      else if last p = CHR ''/'' \<or> fs p = Some Dir then Inl IsADirectoryError
      else if \<not> parent_ok fs p then Inl FileNotFoundError
      else Inr ())"

text \<open>\<open>open(p, "w")\<close> and the writes up to the close, as one step.\<close>

definition write_file :: "fs \<Rightarrow> string \<Rightarrow> string \<Rightarrow> pyerr + fs" where
  "write_file fs p c =
     (case open_write fs p of Inl e \<Rightarrow> Inl e | Inr u \<Rightarrow> Inr (fs(p \<mapsto> File c)))"

text \<open>\<open>open(p, "a")\<close>, one write, and the close.\<close>

definition append_file :: "fs \<Rightarrow> string \<Rightarrow> string \<Rightarrow> pyerr + fs" where
  "append_file fs p c =
     (case open_write fs p of
        Inl e \<Rightarrow> Inl e
      | Inr u \<Rightarrow>
          Inr (fs(p \<mapsto> File ((case fs p of Some (File old) \<Rightarrow> old | _ \<Rightarrow> []) @ c))))"

text \<open>
  \<open>shutil.copyfile(src, dst)\<close>. The same-file test compares the path strings.
\<close>

definition copyfile :: "fs \<Rightarrow> string \<Rightarrow> string \<Rightarrow> pyerr + fs" where
  "copyfile fs src dst =
     (if src = dst \<and> exists fs src then Inl SameFileError
      else case open_read fs src of
             Inl e \<Rightarrow> Inl e
           | Inr c \<Rightarrow> write_file fs dst c)"

text \<open>\<open>os.path.split\<close>: the head without its trailing slashes, and the last component.\<close>

definition path_split :: "string \<Rightarrow> string \<times> string" where
  "path_split p =
     (let i = nat (rfind p CHR ''/'' + 1);
          head = take i p;
          tail = drop i p
      in (if head \<noteq> [] \<and> \<not> list_all (\<lambda>c. c = CHR ''/'') head
          then rev (dropWhile (\<lambda>c. c = CHR ''/'') (rev head))
          else head,
          tail))"

text \<open>\<open>os.mkdir(p)\<close>.\<close>

definition mkdir :: "fs \<Rightarrow> string \<Rightarrow> pyerr + fs" where
  "mkdir fs p =
     (if p = [] then Inl FileNotFoundError
      else if fs p \<noteq> None then Inl FileExistsError
      else if \<not> parent_ok fs p then Inl FileNotFoundError
      else Inr (fs(p \<mapsto> Dir)))"

text \<open>
  The last step of \<open>os.makedirs(name, exist_ok=True)\<close>: the error of \<open>mkdir\<close> is
  dropped when the directory is there already.
\<close>

definition mkdir_exist_ok :: "fs \<Rightarrow> string \<Rightarrow> pyerr + fs" where
  "mkdir_exist_ok fs name =
     (case mkdir fs name of
        Inl e \<Rightarrow> if isdir fs name then Inr fs else Inl e
      | Inr fs1 \<Rightarrow> Inr fs1)"

text \<open>
  \<open>os.makedirs(name, exist_ok=True)\<close>: the missing ancestors are made first, by the
  recursive call on the head of the path.
\<close>

function makedirs :: "fs \<Rightarrow> string \<Rightarrow> pyerr + fs" where
  "makedirs fs name =
     (let ht = (if snd (path_split name) = [] then path_split (fst (path_split name))
                else path_split name);
          head = fst ht;
          tail = snd ht
      in if head \<noteq> [] \<and> tail \<noteq> [] \<and> \<not> exists fs head
         then (case makedirs fs head of
                 Inl e \<Rightarrow> if e = FileExistsError then mkdir_exist_ok fs name else Inl e
               | Inr fs1 \<Rightarrow> if tail = ''.'' then Inr fs1 else mkdir_exist_ok fs1 name)
         else mkdir_exist_ok fs name)"
  by pat_completeness auto
termination
proof (relation "measure (\<lambda>(fs, name). length name)")
  show "wf (measure (\<lambda>(fs, name). length name))" by simp
next
  fix fs :: fs and name :: string and x xa xb
  assume x: "x = (if snd (path_split name) = [] then path_split (fst (path_split name))
                else path_split name)"
    and xa: "xa = fst x" and xb: "xb = snd x"
    and c: "xa \<noteq> [] \<and> xb \<noteq> [] \<and> \<not> exists fs xa"
  have le: "length (fst (path_split p)) + length (snd (path_split p)) \<le> length p" for p
  proof -
    let ?i = "nat (rfind p CHR ''/'' + 1)"
    have "length (rev (dropWhile (\<lambda>c. c = CHR ''/'') (rev (take ?i p)))) \<le> length (take ?i p)"
      using length_dropWhile_le[of "\<lambda>c. c = CHR ''/''" "rev (take ?i p)"] by simp
    then have 1: "length (fst (path_split p)) \<le> length (take ?i p)"
      by (simp add: path_split_def Let_def)
    have 2: "snd (path_split p) = drop ?i p"
      by (simp add: path_split_def Let_def)
    have "length (take ?i p) + length (drop ?i p) = length p"
      by (simp only: length_append[symmetric] append_take_drop_id)
    with 1 2 show ?thesis by (simp, arith)
  qed
  from c have pos: "0 < length xb" by simp
  have "length xa < length name"
  proof (cases "snd (path_split name) = []")
    case True
    with x xa xb have eqs: "xa = fst (path_split (fst (path_split name)))"
      "xb = snd (path_split (fst (path_split name)))" by simp_all
    show ?thesis
      using pos le[of "fst (path_split name)"] le[of name] unfolding eqs by linarith
  next
    case False
    with x xa xb have eqs: "xa = fst (path_split name)" "xb = snd (path_split name)"
      by simp_all
    show ?thesis
      using pos le[of name] unfolding eqs by linarith
  qed
  then show "((fs, xa), fs, name) \<in> measure (\<lambda>(fs, name). length name)" by simp
qed

section \<open>Library functions the adapter calls\<close>

text \<open>
  Python floats, the csv reader and the image decoder are parameters of the model.
  \<open>to_float s\<close> is \<open>float(s)\<close>, with \<open>None\<close> where it raises \<open>ValueError\<close>;
  \<open>float_lt\<close> and \<open>float_ge\<close> are \<open><\<close> and \<open>>=\<close> on floats (the code compares
  with \<open><\<close> only; \<open>>=\<close> is what the specification calls a degenerate box by);
  \<open>float_zero\<close> is the literal \<open>0.0\<close> and \<open>float_repr x\<close> is \<open>str(x)\<close>.
  \<open>csv_reader text\<close> is the list of rows that iterating
  \<open>csv.reader(f, delimiter=" ")\<close> yields, and the error that ends the iteration if
  one does. \<open>image_size content\<close> is the width and height \<open>PIL.Image.open\<close>
  reports, with \<open>None\<close> where it cannot identify an image.
\<close>

datatype 'f cell = CellStr string | CellInt int | CellFloat 'f

record 'f pylib =
  to_float :: "string \<Rightarrow> 'f option"
  float_lt :: "'f \<Rightarrow> 'f \<Rightarrow> bool"
  float_ge :: "'f \<Rightarrow> 'f \<Rightarrow> bool"
  float_zero :: "'f"
  float_repr :: "'f \<Rightarrow> string"
  csv_reader :: "string \<Rightarrow> string list list \<times> pyerr option"
  image_size :: "string \<Rightarrow> (nat \<times> nat) option"

text \<open>What \<open>message(...)\<close> is called with, in call order.\<close>

datatype msg = MsgException pyerr | MsgValueError "string list" | MsgSize nat

fun is_exception_msg :: "msg \<Rightarrow> bool" where
  "is_exception_msg (MsgException e) = True"
| "is_exception_msg m = False"

section \<open>The csv writer\<close>

text \<open>
  \<open>csv.writer(f, delimiter=" ", quoting=csv.QUOTE_MINIMAL).writerow(row)\<close>: every
  cell is turned into a string with \<open>str\<close>; a field that holds the delimiter, the
  quote character or a character of the line terminator is put in quotes, its quote
  characters doubled; a row of one empty field is written as two quotes; the fields
  are joined by the delimiter and the row ends with CR LF.
\<close>

function show_nat :: "nat \<Rightarrow> string" where
  "show_nat n =
     (if n < 10 then [char_of (48 + n)]
      else show_nat (n div 10) @ [char_of (48 + n mod 10)])"
  by pat_completeness auto
termination
  by (relation "measure id") auto

definition show_int :: "int \<Rightarrow> string" where
  "show_int i = (if i < 0 then CHR ''-'' # show_nat (nat (- i)) else show_nat (nat i))"

fun cell_str :: "'f pylib \<Rightarrow> 'f cell \<Rightarrow> string" where
  "cell_str L (CellStr s) = s"
| "cell_str L (CellInt i) = show_int i"
| "cell_str L (CellFloat x) = float_repr L x"

definition csv_special :: "char \<Rightarrow> bool" where
  "csv_special c \<longleftrightarrow> c \<in> set [CHR 0x20, CHR 0x22, CHR 0x0D, CHR 0x0A]"

definition csv_field :: "string \<Rightarrow> string" where
  "csv_field s =
     (if list_ex csv_special s
      then [CHR 0x22] @ concat (map (\<lambda>c. if c = CHR 0x22 then [c, c] else [c]) s) @ [CHR 0x22]
      else s)"

fun join_with :: "string \<Rightarrow> string list \<Rightarrow> string" where
  "join_with sep [] = []"
| "join_with sep [x] = x"
| "join_with sep (x # y # ys) = x @ sep @ join_with sep (y # ys)"

definition csv_writerow :: "'f pylib \<Rightarrow> 'f cell list \<Rightarrow> string" where
  "csv_writerow L row =
     (let fields = map (cell_str L) row
      in (if fields = [[]] then [CHR 0x22, CHR 0x22]
          else join_with [CHR 0x20] (map csv_field fields))
         @ [CHR 0x0D, CHR 0x0A])"

section \<open>The canonical records\<close>

record 'f detection =
  det_id :: string
  det_image_id :: string
  det_label :: string
  det_left :: 'f
  det_right :: 'f
  det_top :: 'f
  det_bottom :: 'f
  det_area :: "'f option"
  det_segmentation :: "string option"
  det_isbbox :: bool
  det_iscrowd :: bool
  det_keypoints :: "'f list"

record image_record =
  img_id :: string
  img_dataset_id :: "string option"
  img_path :: string
  img_segmented_path :: "string option"
  img_width :: nat
  img_height :: nat
  img_file_name :: string

record 'f image_detections =
  idt_image :: image_record
  idt_detections :: "'f detection list"

section \<open>KITTIIngestor (backend/workers/lib/vod_converter/kitti.py)\<close>

definition validate :: "fs \<Rightarrow> string \<Rightarrow> bool \<times> string option" where
  "validate fs path =
     (if \<not> isdir fs (path_join path ''images'')
        then (False, Some (''Expected subdirectory images within '' @ path))
      else if \<not> isdir fs (path_join path ''labels'')
        then (False, Some (''Expected subdirectory labels within '' @ path))
      else if \<not> isfile fs (path_join path ''train.txt'')
        then (False, Some (''Expected train.txt file within '' @ path))
      else (True, None))"

text \<open>The loop of \<open>find_image_ext\<close> over the extensions still to try.\<close>

fun find_image_ext_loop :: "fs \<Rightarrow> string \<Rightarrow> string \<Rightarrow> string list \<Rightarrow> pyerr + string" where
  "find_image_ext_loop fs root image_id [] = Inl (Exception image_id)"
| "find_image_ext_loop fs root image_id (image_ext # exts) =
     (if exists fs (path_join (path_join root ''images'') (image_id @ ''.'' @ image_ext))
      then Inr image_ext
      else find_image_ext_loop fs root image_id exts)"

definition find_image_ext :: "fs \<Rightarrow> string \<Rightarrow> string \<Rightarrow> pyerr + string" where
  "find_image_ext fs root image_id =
     find_image_ext_loop fs root image_id [''png'', ''jpg'']"

definition get_image_ids :: "fs \<Rightarrow> string \<Rightarrow> pyerr + string list" where
  "get_image_ids fs root =
     (case open_read fs (path_join root ''train.txt'') of
        Inl e \<Rightarrow> Inl e
      | Inr text \<Rightarrow> Inr (split_on CHR 0x0A (py_strip text)))"

definition image_dimensions :: "'f pylib \<Rightarrow> fs \<Rightarrow> string \<Rightarrow> pyerr + nat \<times> nat" where
  "image_dimensions L fs path =
     (case open_read fs path of
        Inl e \<Rightarrow> Inl e
      | Inr content \<Rightarrow>
          (case image_size L content of
             None \<Rightarrow> Inl UnidentifiedImageError
           | Some wh \<Rightarrow> Inr wh))"

text \<open>
  \<open>x1, y1, x2, y2 = map(float, row[4:8])\<close>: a \<open>ValueError\<close> when a column is not a
  float or when the slice has fewer than four columns.
\<close>

fun unpack4 :: "'a option list \<Rightarrow> ('a \<times> 'a \<times> 'a \<times> 'a) option" where
  "unpack4 [Some a, Some b, Some c, Some d] = Some (a, b, c, d)"
| "unpack4 vs = None"

text \<open>The body of the \<open>try\<close> for one row; \<open>None\<close> is the \<open>ValueError\<close>.\<close>

definition parse_row :: "'f pylib \<Rightarrow> string \<Rightarrow> string list \<Rightarrow> 'f detection option" where
  "parse_row L image_id row =
     (case unpack4 (map (to_float L) (take 4 (drop 4 row))) of
        None \<Rightarrow> None
      | Some (x1, y1, x2, y2) \<Rightarrow>
          Some \<lparr> det_id = image_id, det_image_id = image_id, det_label = hd row,
                 det_left = x1, det_right = x2, det_top = y1, det_bottom = y2,
                 det_area = None, det_segmentation = None, det_isbbox = True,
                 det_iscrowd = False, det_keypoints = [] \<rparr>)"

text \<open>
  The \<open>for row in f_csv\<close> loop: the messages it emits and the detections it appends,
  both in row order.
\<close>

fun detections_loop ::
  "'f pylib \<Rightarrow> string \<Rightarrow> string list list \<Rightarrow> msg list \<times> 'f detection list" where
  "detections_loop L image_id [] = ([], [])"
| "detections_loop L image_id (row # rows) =
     (let (ms, ds) = detections_loop L image_id rows
      in if length row = 0 then (ms, ds)
         else case parse_row L image_id row of
                Some d \<Rightarrow> (ms, d # ds)
              | None \<Rightarrow> (MsgValueError row # ms, ds))"

definition get_detections ::
  "'f pylib \<Rightarrow> fs \<Rightarrow> string \<Rightarrow> string \<Rightarrow> msg list \<times> (pyerr + 'f detection list)" where
  "get_detections L fs detections_fpath image_id =
     (case open_read fs detections_fpath of
        Inl e \<Rightarrow> ([], Inl e)
      | Inr text \<Rightarrow>
          (let (rows, err) = csv_reader L text;
               (ms, detections) = detections_loop L image_id rows
           in (ms, case err of Some e \<Rightarrow> Inl e | None \<Rightarrow> Inr detections)))"

text \<open>
  \<open>_get_image_detection\<close>: any exception inside the \<open>try\<close> is reported with
  \<open>message\<close> and the method then returns \<open>None\<close>.
\<close>

definition get_image_detection ::
  "'f pylib \<Rightarrow> fs \<Rightarrow> string \<Rightarrow> string \<Rightarrow> string \<Rightarrow> msg list \<times> 'f image_detections option" where
  "get_image_detection L fs root image_id image_ext =
     (let detections_fpath = path_join (path_join root ''labels'') (image_id @ ''.txt'');
          (ms, res) = get_detections L fs detections_fpath image_id
      in case res of
           Inl e \<Rightarrow> (ms @ [MsgException e], None)
         | Inr detections0 \<Rightarrow>
             (let detections =
                    filter (\<lambda>det. float_lt L (det_left det) (det_right det) \<and>
                                  float_lt L (det_top det) (det_bottom det)) detections0;
                  image_path =
                    path_join (path_join root ''images'') (image_id @ ''.'' @ image_ext)
              in case image_dimensions L fs image_path of
                   Inl e \<Rightarrow> (ms @ [MsgException e], None)
                 | Inr (image_width, image_height) \<Rightarrow>
                     (ms,
                      Some \<lparr> idt_image =
                               \<lparr> img_id = image_id, img_dataset_id = None,
                                 img_path = image_path, img_segmented_path = None,
                                 img_width = image_width, img_height = image_height,
                                 img_file_name = image_id @ ''.'' @ image_ext \<rparr>,
                             idt_detections = detections \<rparr>)))"

definition ingest ::
  "'f pylib \<Rightarrow> fs \<Rightarrow> string \<Rightarrow> msg list \<times> (pyerr + 'f image_detections option list)" where
  "ingest L fs path =
     (case get_image_ids fs path of
        Inl e \<Rightarrow> ([], Inl e)
      | Inr image_ids \<Rightarrow>
          (case (if length image_ids \<noteq> 0 then find_image_ext fs path (hd image_ids)
                 else Inr ''png'') of
             Inl e \<Rightarrow> ([], Inl e)
           | Inr image_ext \<Rightarrow>
               (let tmp = map (\<lambda>image_name.
                                 get_image_detection L fs path image_name image_ext)
                              image_ids
                in (concat (map fst tmp) @ [MsgSize (length tmp)], Inr (map snd tmp)))))"

section \<open>KITTIEgestor (backend/workers/lib/vod_converter/kitti.py)\<close>

definition DEFAULT_TRUNCATED :: "'f pylib \<Rightarrow> 'f cell" where
  "DEFAULT_TRUNCATED L = CellFloat (float_zero L)"

definition DEFAULT_OCCLUDED :: "'f cell" where
  "DEFAULT_OCCLUDED = CellInt 0"

text \<open>
  The row built for one detection. The slice assignment \<open>kitti_row[4:8] = ...\<close>
  replaces the four cells at indices 4 to 7.
\<close>

definition kitti_row :: "'f pylib \<Rightarrow> 'f detection \<Rightarrow> 'f cell list" where
  "kitti_row L detection =
     (let row0 = replicate 15 (CellInt (- 1));
          row1 = row0[0 := CellStr (det_label detection)];
          row2 = row1[1 := DEFAULT_TRUNCATED L];
          row3 = row2[2 := DEFAULT_OCCLUDED];
          x1 = det_left detection;
          x2 = det_right detection;
          y1 = det_top detection;
          y2 = det_bottom detection
      in take 4 row3 @ [CellFloat x1, CellFloat y1, CellFloat x2, CellFloat y2] @ drop 8 row3)"

text \<open>The text of one labels file: one \<open>writerow\<close> per detection.\<close>

definition labels_text :: "'f pylib \<Rightarrow> 'f detection list \<Rightarrow> string" where
  "labels_text L detections =
     concat (map (\<lambda>detection. csv_writerow L (kitti_row L detection)) detections)"

text \<open>
  One iteration of the loop of \<open>egest\<close>: the messages, the file system it leaves and
  the exception that leaves the loop, if any. \<open>None["image"]\<close> is a \<open>TypeError\<close>.
  Only \<open>FileNotFoundError\<close> from the copy is caught.
\<close>

definition egest_image ::
  "'f pylib \<Rightarrow> string \<Rightarrow> fs \<Rightarrow> 'f image_detections option \<Rightarrow> msg list \<times> fs \<times> pyerr option" where
  "egest_image L root fs image_detection =
     (let images_dir = path_join root ''images'';
          labels_dir = path_join root ''labels'';
          id_file = path_join root ''train.txt''
      in case image_detection of
           None \<Rightarrow> ([], fs, Some TypeError)
         | Some idt \<Rightarrow>
             (let image = idt_image idt;
                  image_id = img_id image;
                  src_extension = snd (splitext (img_path image))
              in case copyfile fs (img_path image)
                        (path_join images_dir (image_id @ src_extension)) of
                   Inl e \<Rightarrow>
                     (if e = FileNotFoundError then ([MsgException e], fs, None)
                      else ([], fs, Some e))
                 | Inr fs1 \<Rightarrow>
                     (case append_file fs1 id_file (image_id @ [CHR 0x0A]) of
                        Inl e \<Rightarrow> ([], fs1, Some e)
                      | Inr fs2 \<Rightarrow>
                          (case write_file fs2 (path_join labels_dir (image_id @ ''.txt''))
                                  (labels_text L (idt_detections idt)) of
                             Inl e \<Rightarrow> ([], fs2, Some e)
                           | Inr fs3 \<Rightarrow> ([], fs3, None)))))"

fun egest_loop ::
  "'f pylib \<Rightarrow> string \<Rightarrow> fs \<Rightarrow> 'f image_detections option list \<Rightarrow> msg list \<times> fs \<times> pyerr option" where
  "egest_loop L root fs [] = ([], fs, None)"
| "egest_loop L root fs (image_detection # rest) =
     (case egest_image L root fs image_detection of
        (ms, fs1, Some e) \<Rightarrow> (ms, fs1, Some e)
      | (ms, fs1, None) \<Rightarrow>
          (case egest_loop L root fs1 rest of (ms2, fs2, r) \<Rightarrow> (ms @ ms2, fs2, r)))"


section \<open>An instance of the library, for evaluation on concrete datasets\<close>

text \<open>
  A fragment of the library on which the adapter can be run inside the logic: the
  floats are the integers written as unsigned decimal literals (\<open>float("12")\<close> is
  12.0) and the one written \<open>nan\<close>, which is neither \<open><\<close> nor \<open>>=\<close> anything;
  every other string is rejected. The csv reader handles text without quotes, a blank
  line being an empty row; the image decoder knows one content.
\<close>

datatype sfloat = Finite int | NaN

definition is_digit :: "char \<Rightarrow> bool" where
  "is_digit c \<longleftrightarrow> 48 \<le> (of_char c :: nat) \<and> (of_char c :: nat) \<le> 57"

definition sample_float :: "string \<Rightarrow> sfloat option" where
  "sample_float s =
     (if s = ''nan'' then Some NaN
      else if s \<noteq> [] \<and> list_all is_digit s
      then Some (Finite (int (foldl (\<lambda>n c. 10 * n + (of_char c - 48)) 0 s)))
      else None)"

fun sample_lt :: "sfloat \<Rightarrow> sfloat \<Rightarrow> bool" where
  "sample_lt (Finite a) (Finite b) = (a < b)"
| "sample_lt x y = False"

fun sample_ge :: "sfloat \<Rightarrow> sfloat \<Rightarrow> bool" where
  "sample_ge (Finite a) (Finite b) = (a \<ge> b)"
| "sample_ge x y = False"

fun sample_repr :: "sfloat \<Rightarrow> string" where
  "sample_repr (Finite a) = show_int a @ ''.0''"
| "sample_repr NaN = ''nan''"

definition file_lines :: "string \<Rightarrow> string list" where
  "file_lines text =
     (let ls = split_on CHR 0x0A text in if last ls = [] then butlast ls else ls)"

definition sample_csv_reader :: "string \<Rightarrow> string list list \<times> pyerr option" where
  "sample_csv_reader text =
     (map (\<lambda>l. if l = [] then [] else split_on CHR '' '' l) (file_lines text), None)"

definition sample_image_size :: "string \<Rightarrow> (nat \<times> nat) option" where
  "sample_image_size content = (if content = ''image 640x480'' then Some (640, 480) else None)"

definition sample_lib :: "sfloat pylib" where
  "sample_lib =
     \<lparr> to_float = sample_float, float_lt = sample_lt, float_ge = sample_ge,
       float_zero = Finite 0, float_repr = sample_repr,
       csv_reader = sample_csv_reader, image_size = sample_image_size \<rparr>"

section \<open>Notions for stating the properties\<close>

text \<open>The records of a list that \<open>ingest\<close> returns.\<close>

fun records :: "'a option list \<Rightarrow> 'a list" where
  "records [] = []"
| "records (None # xs) = records xs"
| "records (Some r # xs) = r # records xs"

text \<open>
  An image id is readable when its labels file is read and parsed without an
  exception and its image file, under the given extension, can be measured.
\<close>

definition image_readable :: "'f pylib \<Rightarrow> fs \<Rightarrow> string \<Rightarrow> string \<Rightarrow> string \<Rightarrow> bool" where
  "image_readable L fs root ext i \<longleftrightarrow>
     \<not> isl (snd (get_detections L fs (path_join (path_join root ''labels'') (i @ ''.txt'')) i)) \<and>
     \<not> isl (image_dimensions L fs (path_join (path_join root ''images'') (i @ ''.'' @ ext)))"

text \<open>
  A degenerate box in the words of the specification: \<open>left >= right\<close> or
  \<open>top >= bottom\<close>.
\<close>

definition degenerate :: "'f pylib \<Rightarrow> 'f detection \<Rightarrow> bool" where
  "degenerate L d \<longleftrightarrow>
     float_ge L (det_left d) (det_right d) \<or> float_ge L (det_top d) (det_bottom d)"



text \<open>The text of a regular file, empty when there is none at the path.\<close>

definition file_text :: "fs \<Rightarrow> string \<Rightarrow> string" where
  "file_text fs p = (case fs p of Some (File t) \<Rightarrow> t | _ \<Rightarrow> [])"

text \<open>The paths that \<open>egest\<close> writes for one image.\<close>

definition target_image :: "string \<Rightarrow> 'f image_detections \<Rightarrow> string" where
  "target_image root idt =
     path_join (path_join root ''images'')
       (img_id (idt_image idt) @ snd (splitext (img_path (idt_image idt))))"


section \<open>Sample datasets\<close>

definition unlines :: "string list \<Rightarrow> string" where
  "unlines ls = concat (map (\<lambda>l. l @ [CHR 0x0A]) ls)"

text \<open>
  Three images in the manifest, the second without an image file. The labels of
  \<open>a\<close> hold three proper boxes and two degenerate ones; the labels of \<open>c\<close> hold a
  row with a non-numeric column, a blank line and a short row.
\<close>

definition kitti_sample :: fs where
  "kitti_sample = map_of
     [(''data/train.txt'', File (unlines [''a'', ''b'', ''c''])),
      (''data/images'', Dir),
      (''data/labels'', Dir),
      (''data/images/a.png'', File ''image 640x480''),
      (''data/images/c.png'', File ''image 640x480''),
      (''data/labels/a.txt'',
         File (unlines [''Car 0 0 0 1 2 30 40'', ''Van 0 0 0 5 5 5 9 1 1 1'',
                        ''Car 0 0 0 7 8 9 10'', ''Car 0 0 0 9 8 7 6'',
                        ''Tram 0 0 0 0 0 1 1''])),
      (''data/labels/b.txt'', File (unlines [''Car 0 0 0 1 2 30 40''])),
      (''data/labels/c.txt'',
         File (unlines [''Car 0 0 0 1 2 30 40'', ''Car 0 0 0 x 2 30 40'', [],
                        ''Car 0 0'', ''Van 0 0 0 1 2 3 4'']))]"

text \<open>The first manifest id has no image file; the second has one.\<close>

definition kitti_first_missing :: fs where
  "kitti_first_missing = map_of
     [(''data/train.txt'', File (unlines [''a'', ''b''])),
      (''data/images'', Dir),
      (''data/labels'', Dir),
      (''data/images/b.png'', File ''image 640x480''),
      (''data/labels/a.txt'', File (unlines [''Car 0 0 0 1 2 30 40''])),
      (''data/labels/b.txt'', File (unlines [''Car 0 0 0 1 2 30 40'']))]"

text \<open>The first image is stored as png, the second as jpg.\<close>

definition kitti_mixed_ext :: fs where
  "kitti_mixed_ext = map_of
     [(''data/train.txt'', File (unlines [''a'', ''b''])),
      (''data/images'', Dir),
      (''data/labels'', Dir),
      (''data/images/a.png'', File ''image 640x480''),
      (''data/images/b.jpg'', File ''image 640x480''),
      (''data/labels/a.txt'', File (unlines [''Car 0 0 0 1 2 30 40''])),
      (''data/labels/b.txt'', File (unlines [''Van 0 0 0 1 2 3 4'']))]"

text \<open>A manifest of one line break, next to an image file named \<open>.png\<close>.\<close>

definition kitti_blank_manifest :: fs where
  "kitti_blank_manifest = map_of
     [(''data/train.txt'', File [CHR 0x0A]),
      (''data/images'', Dir),
      (''data/labels'', Dir),
      (''data/images/.png'', File ''image 640x480''),
      (''data/labels/.txt'', File [])]"

text \<open>A labels file of three rows, the second with a non-numeric box column.\<close>

definition kitti_one_bad_row :: fs where
  "kitti_one_bad_row = map_of
     [(''data/labels/a.txt'',
         File (unlines [''Car 0 0 0 1 2 30 40'', ''Car 0 0 0 x 2 30 40'',
                        ''Van 0 0 0 1 2 3 4'']))]"

text \<open>A manifest that starts with two empty lines, before the ids \<open>a\<close> and \<open>c\<close>.\<close>

definition kitti_leading_blank :: fs where
  "kitti_leading_blank =
     kitti_sample(''data/train.txt'' \<mapsto> File (unlines [[], [], ''a'', ''c'']))"

text \<open>
  One image whose labels hold five rows: two proper boxes, a box whose left edge is
  \<open>nan\<close>, and two boxes with \<open>left >= right\<close> or \<open>top >= bottom\<close>.
\<close>

definition kitti_nan_box :: fs where
  "kitti_nan_box = map_of
     [(''data/train.txt'', File (unlines [''a''])),
      (''data/images'', Dir),
      (''data/labels'', Dir),
      (''data/images/a.png'', File ''image 640x480''),
      (''data/labels/a.txt'',
         File (unlines [''Car 0 0 0 1 2 30 40'', ''Van 0 0 0 nan 2 30 40'',
                        ''Car 0 0 0 7 8 9 10'', ''Car 0 0 0 9 8 7 6'',
                        ''Tram 0 0 0 0 5 1 5'']))]"


definition kitti_target :: fs where
  "kitti_target =
     kitti_sample(''out'' \<mapsto> Dir, ''out/images'' \<mapsto> Dir, ''out/labels'' \<mapsto> Dir)"

section \<open>The ingestor: auxiliary facts\<close>

lemma split_on_not_Nil: "split_on sep s \<noteq> []"
  by (induction s) (simp_all add: Let_def)

lemma py_strip_all_space: "list_all py_isspace s \<Longrightarrow> py_strip s = []"
proof -
  assume "list_all py_isspace s"
  then have h: "dropWhile py_isspace s = []"
    by (induction s) auto
  show ?thesis unfolding py_strip_def h by simp
qed

lemma find_image_ext_cases:
  "find_image_ext fs root image_id =
     (if exists fs (path_join (path_join root ''images'') (image_id @ ''.png'')) then Inr ''png''
      else if exists fs (path_join (path_join root ''images'') (image_id @ ''.jpg'')) then Inr ''jpg''
      else Inl (Exception image_id))"
  by (simp add: find_image_ext_def)

lemma get_image_ids_not_Nil: "get_image_ids fs root = Inr ids \<Longrightarrow> ids \<noteq> []"
  by (auto simp: get_image_ids_def split_on_not_Nil split: sum.splits)

lemma ingest_Inr:
  assumes "get_image_ids fs root = Inr ids" and "find_image_ext fs root (hd ids) = Inr ext"
  shows "ingest L fs root =
           (concat (map (\<lambda>i. fst (get_image_detection L fs root i ext)) ids)
              @ [MsgSize (length ids)],
            Inr (map (\<lambda>i. snd (get_image_detection L fs root i ext)) ids))"
  using assms get_image_ids_not_Nil[OF assms(1)]
  by (simp add: ingest_def Let_def comp_def)

lemma ingest_Inr_elim:
  assumes "ingest L fs root = (ms, Inr recs)"
  obtains ids ext where "get_image_ids fs root = Inr ids"
    and "find_image_ext fs root (hd ids) = Inr ext"
    and "recs = map (\<lambda>i. snd (get_image_detection L fs root i ext)) ids"
    and "ms = concat (map (\<lambda>i. fst (get_image_detection L fs root i ext)) ids)
                @ [MsgSize (length ids)]"
proof -
  from assms obtain ids where ids: "get_image_ids fs root = Inr ids"
    by (auto simp: ingest_def split: sum.splits)
  with assms obtain ext where ext: "find_image_ext fs root (hd ids) = Inr ext"
    using get_image_ids_not_Nil[OF ids] by (auto simp: ingest_def split: sum.splits)
  from ingest_Inr[OF ids ext, of L] assms that ids ext show thesis by simp
qed

lemma get_image_detection_Some:
  assumes "get_image_detection L fs root image_id image_ext = (ms, Some r)"
  shows "img_id (idt_image r) = image_id"
    and "img_path (idt_image r) =
           path_join (path_join root ''images'') (image_id @ ''.'' @ image_ext)"
    and "img_file_name (idt_image r) = image_id @ ''.'' @ image_ext"
    and "\<exists>ds. get_detections L fs
                 (path_join (path_join root ''labels'') (image_id @ ''.txt'')) image_id
               = (ms, Inr ds) \<and>
              idt_detections r =
                filter (\<lambda>det. float_lt L (det_left det) (det_right det) \<and>
                              float_lt L (det_top det) (det_bottom det)) ds"
    and "\<exists>wh. image_dimensions L fs
                 (path_join (path_join root ''images'') (image_id @ ''.'' @ image_ext)) = Inr wh"
  using assms
  by (auto simp: get_image_detection_def Let_def split: prod.splits sum.splits)

lemma detections_loop_no_exception_msg:
  "filter is_exception_msg (fst (detections_loop L image_id rows)) = []"
  by (induction rows) (auto simp: Let_def split: prod.splits option.splits)

lemma get_detections_no_exception_msg:
  "filter is_exception_msg (fst (get_detections L fs p image_id)) = []"
  by (simp add: get_detections_def Let_def case_prod_beta detections_loop_no_exception_msg
           split: sum.splits)

lemma get_image_detection_exception_count:
  "length (filter is_exception_msg (fst (get_image_detection L fs root i ext))) =
     (if snd (get_image_detection L fs root i ext) = None then 1 else 0)"
  by (simp add: get_image_detection_def Let_def case_prod_beta get_detections_no_exception_msg
           split: sum.splits)

lemma exception_count_images:
  "length (filter is_exception_msg
             (concat (map (\<lambda>i. fst (get_image_detection L fs root i ext)) ids))) =
   length (filter (\<lambda>r. r = None) (map (\<lambda>i. snd (get_image_detection L fs root i ext)) ids))"
  by (induction ids) (simp_all add: get_image_detection_exception_count)

lemma get_image_detection_missing_image:
  assumes "fs (path_join (path_join root ''images'') (i @ ''.'' @ ext)) = None"
  shows "snd (get_image_detection L fs root i ext) = None"
  using assms
  by (simp add: get_image_detection_def image_dimensions_def open_read_def Let_def
           case_prod_beta split: sum.splits)

lemma get_image_detection_present:
  assumes "snd (get_detections L fs (path_join (path_join root ''labels'') (i @ ''.txt'')) i)
             = Inr ds"
      and "image_dimensions L fs (path_join (path_join root ''images'') (i @ ''.'' @ ext))
             = Inr wh"
  shows "snd (get_image_detection L fs root i ext) \<noteq> None"
  using assms
  by (simp add: get_image_detection_def Let_def case_prod_beta split: sum.splits)

lemma get_image_detection_id:
  assumes "snd (get_image_detection L fs root i ext) \<noteq> None"
  shows "map_option (img_id \<circ> idt_image) (snd (get_image_detection L fs root i ext)) = Some i"
proof -
  from assms obtain ms r where "get_image_detection L fs root i ext = (ms, Some r)"
    by (cases "get_image_detection L fs root i ext") auto
  then show ?thesis
    using get_image_detection_Some(1)[of L fs root i ext ms r] by simp
qed

lemma unpack4_Some_iff:
  "unpack4 vs = Some (a, b, c, d) \<longleftrightarrow> vs = [Some a, Some b, Some c, Some d]"
  by (cases vs rule: unpack4.cases) auto

lemma unpack4_None_iff: "unpack4 vs = None \<longleftrightarrow> length vs \<noteq> 4 \<or> None \<in> set vs"
  by (cases vs rule: unpack4.cases) auto

lemma parse_row_None_iff:
  "parse_row L image_id row = None \<longleftrightarrow>
     length row < 8 \<or> (\<exists>s\<in>set (take 4 (drop 4 row)). to_float L s = None)"
proof -
  let ?cols = "take 4 (drop 4 row)"
  have 1: "parse_row L image_id row = None \<longleftrightarrow> unpack4 (map (to_float L) ?cols) = None"
    by (simp add: parse_row_def split: option.splits prod.splits)
  have 2: "length (map (to_float L) ?cols) \<noteq> 4 \<longleftrightarrow> length row < 8"
    by auto
  have 3: "None \<in> set (map (to_float L) ?cols) \<longleftrightarrow> (\<exists>s\<in>set ?cols. to_float L s = None)"
    by force
  show ?thesis unfolding 1 unpack4_None_iff 2 3 ..
qed

lemma parse_row_label:
  "parse_row L image_id row = Some d \<Longrightarrow> det_label d = hd row \<and> det_image_id d = image_id"
  by (auto simp: parse_row_def split: option.splits)

lemma detections_loop_append:
  "detections_loop L image_id (xs @ ys) =
     (fst (detections_loop L image_id xs) @ fst (detections_loop L image_id ys),
      snd (detections_loop L image_id xs) @ snd (detections_loop L image_id ys))"
  by (induction xs) (auto simp: Let_def case_prod_beta split: option.splits)

lemma detections_loop_valid:
  assumes "\<forall>row\<in>set rows. 8 \<le> length row \<and>
             (\<forall>s\<in>set (take 4 (drop 4 row)). to_float L s \<noteq> None)"
  shows "fst (detections_loop L image_id rows) = [] \<and>
         length (snd (detections_loop L image_id rows)) = length rows \<and>
         map det_label (snd (detections_loop L image_id rows)) = map hd rows"
  using assms
proof (induction rows)
  case Nil
  then show ?case by simp
next
  case (Cons row rows)
  then have ok: "parse_row L image_id row \<noteq> None"
    by (auto simp: parse_row_None_iff)
  then obtain d where d: "parse_row L image_id row = Some d" by auto
  from Cons have ne: "row \<noteq> []" by auto
  from Cons d ne parse_row_label[OF d] show ?case
    by (simp add: Let_def case_prod_beta)
qed

lemma detections_loop_malformed:
  assumes "row \<noteq> []"
      and "length row < 8 \<or> (\<exists>s\<in>set (take 4 (drop 4 row)). to_float L s = None)"
  shows "detections_loop L image_id [row] = ([MsgValueError row], [])"
proof -
  from assms(2) have "parse_row L image_id row = None"
    unfolding parse_row_None_iff .
  with assms(1) show ?thesis by simp
qed

lemma set_records: "set (records xs) = {r. Some r \<in> set xs}"
  by (induction xs rule: records.induct) auto

lemma length_records: "length (records xs) + length (filter (\<lambda>r. r = None) xs) = length xs"
  by (induction xs rule: records.induct) auto

lemma records_map:
  "records (map f xs) = map (\<lambda>x. the (f x)) (filter (\<lambda>x. f x \<noteq> None) xs)"
  by (induction xs) (auto split: option.splits)

lemma get_image_detection_readable:
  "snd (get_image_detection L fs root i ext) \<noteq> None \<longleftrightarrow> image_readable L fs root ext i"
  by (auto simp: get_image_detection_def image_readable_def Let_def case_prod_beta
           split: sum.splits)

lemma get_image_detection_record:
  assumes "get_image_detection L fs root i ext = (ms, Some r)"
  shows "\<exists>ds. get_detections L fs (path_join (path_join root ''labels'') (i @ ''.txt'')) i
                = (ms, Inr ds) \<and>
              image_dimensions L fs (path_join (path_join root ''images'') (i @ ''.'' @ ext))
                = Inr (img_width (idt_image r), img_height (idt_image r)) \<and>
              r = \<lparr> idt_image =
                      \<lparr> img_id = i, img_dataset_id = None,
                        img_path = path_join (path_join root ''images'') (i @ ''.'' @ ext),
                        img_segmented_path = None,
                        img_width = img_width (idt_image r),
                        img_height = img_height (idt_image r),
                        img_file_name = i @ ''.'' @ ext \<rparr>,
                    idt_detections =
                      filter (\<lambda>det. float_lt L (det_left det) (det_right det) \<and>
                                    float_lt L (det_top det) (det_bottom det)) ds \<rparr>"
  using assms
  by (auto simp: get_image_detection_def Let_def split: prod.splits sum.splits)

section \<open>Paths and file operations: auxiliary facts\<close>











lemma write_file_Inr:
  "write_file fs p c = Inr fs' \<Longrightarrow> fs' = fs(p \<mapsto> File c) \<and> fs p \<noteq> Some Dir \<and> parent_ok fs p"
  by (auto simp: write_file_def open_write_def split: sum.splits if_splits)

lemma append_file_Inr:
  "append_file fs p c = Inr fs' \<Longrightarrow>
     fs' = fs(p \<mapsto> File (file_text fs p @ c)) \<and> fs p \<noteq> Some Dir \<and> parent_ok fs p"
  by (auto simp: append_file_def open_write_def file_text_def
           split: sum.splits if_splits option.splits node.splits)

lemma copyfile_Inr:
  "copyfile fs src dst = Inr fs' \<Longrightarrow>
     \<exists>c. fs src = Some (File c) \<and> fs' = fs(dst \<mapsto> File c) \<and> fs dst \<noteq> Some Dir
          \<and> parent_ok fs dst"
  by (auto simp: copyfile_def open_read_def dest!: write_file_Inr
           split: sum.splits if_splits option.splits node.splits)

text \<open>The last slash of a path, and the directory of a file written below a directory.\<close>

lemma last_index_None: "last_index c s = None \<longleftrightarrow> c \<notin> set s"
  by (induction s) (auto split: option.splits)

lemma last_index_append_notin: "c \<notin> set t \<Longrightarrow> last_index c (a @ t) = last_index c a"
  by (induction a) (auto simp: last_index_None split: option.splits)

lemma last_index_snoc: "last_index c (a @ [c]) = Some (length a)"
  by (induction a) auto

lemma rfind_slash_free: "c \<notin> set t \<Longrightarrow> rfind (a @ c # t) c = int (length a)"
proof -
  assume "c \<notin> set t"
  then have "last_index c ((a @ [c]) @ t) = Some (length a)"
    using last_index_append_notin[of c t "a @ [c]"] last_index_snoc[of c a] by (simp del: append_assoc)
  then show ?thesis by (simp add: rfind_def)
qed

lemma rfind_none: "c \<notin> set t \<Longrightarrow> rfind t c = - 1"
  by (simp add: rfind_def last_index_None[THEN iffD2])

lemma last_index_drop:
  "(case last_index c s of Some i \<Rightarrow> i < j | None \<Rightarrow> True) \<Longrightarrow> c \<notin> set (drop j s)"
proof (induction s arbitrary: j)
  case Nil
  then show ?case by simp
next
  case (Cons x xs)
  show ?case
  proof (cases j)
    case 0
    with Cons.prems show ?thesis
      by (auto simp: last_index_None split: option.splits if_splits)
  next
    case (Suc k)
    with Cons.prems have "case last_index c xs of Some i \<Rightarrow> i < k | None \<Rightarrow> True"
      by (auto split: option.splits if_splits)
    from Cons.IH[OF this] Suc show ?thesis by simp
  qed
qed

lemma splitext_ext_no_slash: "CHR ''/'' \<notin> set (snd (splitext p))"
proof (cases "rfind p CHR ''.'' > rfind p CHR ''/''")
  case False
  then show ?thesis by (simp add: splitext_def Let_def)
next
  case True
  then have "case last_index CHR ''/'' p of Some i \<Rightarrow> i < nat (rfind p CHR ''.'') | None \<Rightarrow> True"
    by (auto simp: rfind_def split: option.splits)
  from last_index_drop[OF this] show ?thesis
    by (simp add: splitext_def Let_def)
qed

lemma dirname_join:
  assumes "d \<noteq> []" and "last d \<noteq> CHR ''/''" and "CHR ''/'' \<notin> set n"
  shows "path_join d n = d @ CHR ''/'' # n" and "dirname (path_join d n) = d"
proof -
  from assms(3) have "n = [] \<or> hd n \<noteq> CHR ''/''"
    by (cases n) auto
  with assms(1,2) show j: "path_join d n = d @ CHR ''/'' # n"
    by (auto simp: path_join_def)
  have r: "rfind (d @ CHR ''/'' # n) CHR ''/'' = int (length d)"
    by (rule rfind_slash_free[OF assms(3)])
  have "nat (int (length d) + 1) = Suc (length d)"
    by simp
  then have h: "take (nat (rfind (d @ CHR ''/'' # n) CHR ''/'' + 1)) (d @ CHR ''/'' # n)
                  = d @ [CHR ''/'']"
    unfolding r by simp
  from assms(1) have "last d \<in> set d"
    by (rule last_in_set)
  with assms(2) have ns: "\<not> list_all (\<lambda>c. c = CHR ''/'') (d @ [CHR ''/''])"
    by (auto simp: list_all_iff)
  from assms(1) obtain ys y where d: "d = ys @ [y]"
    by (cases d rule: rev_cases) auto
  with assms(2) have "y \<noteq> CHR ''/''" by simp
  then have s: "rev (dropWhile (\<lambda>c. c = CHR ''/'') (rev (d @ [CHR ''/'']))) = d"
    unfolding d by simp
  have ne: "d @ [CHR ''/''] \<noteq> []" by simp
  show "dirname (path_join d n) = d"
    unfolding j dirname_def Let_def h by (simp only: ns s ne if_True simp_thms)
qed

lemma subdir_not_Nil: "path_join root (c # cs) \<noteq> []"
  by (simp add: path_join_def)

lemma images_dir_last: "last (path_join root ''images'') = CHR ''s''"
  by (simp add: path_join_def)

lemma labels_dir_last: "last (path_join root ''labels'') = CHR ''s''"
  by (simp add: path_join_def)

lemma parent_ok_below:
  assumes "fs d = Some Dir" and "d \<noteq> []" and "last d \<noteq> CHR ''/''" and "CHR ''/'' \<notin> set n"
  shows "parent_ok fs (path_join d n)"
  using assms by (simp add: parent_ok_def dirname_join(2) Let_def)

lemma target_image_parent_ok:
  assumes "isdir fs (path_join root ''images'')" and "CHR ''/'' \<notin> set (img_id (idt_image idt))"
  shows "parent_ok fs (target_image root idt)"
  unfolding target_image_def
  using assms splitext_ext_no_slash[of "img_path (idt_image idt)"]
  by (intro parent_ok_below) (simp_all add: isdir_def subdir_not_Nil images_dir_last)

text \<open>\<open>os.makedirs\<close> only makes directories where there was nothing.\<close>

lemma mkdir_exist_ok_Inr:
  "mkdir_exist_ok fs name = Inr fs' \<Longrightarrow>
     isdir fs' name \<and> (fs' = fs \<or> (fs name = None \<and> fs' = fs(name \<mapsto> Dir)))"
  by (auto simp: mkdir_exist_ok_def mkdir_def isdir_def split: sum.splits if_splits)

lemma makedirs_frame:
  "makedirs fs name = Inr fs' \<Longrightarrow> fs' p = fs p \<or> (fs p = None \<and> fs' p = Some Dir)"
proof (induction fs name arbitrary: fs' rule: makedirs.induct)
  case (1 fs name)
  let ?ht = "if snd (path_split name) = [] then path_split (fst (path_split name))
             else path_split name"
  show ?case
  proof (cases "fst ?ht \<noteq> [] \<and> snd ?ht \<noteq> [] \<and> \<not> exists fs (fst ?ht)")
    case False
    with "1.prems" have "mkdir_exist_ok fs name = Inr fs'"
      by (subst (asm) makedirs.simps) (simp add: Let_def)
    from mkdir_exist_ok_Inr[OF this] show ?thesis by (cases "p = name") auto
  next
    case True
    note IH = "1.IH"[OF refl refl refl True]
    show ?thesis
    proof (cases "makedirs fs (fst ?ht)")
      case (Inl e)
      with True "1.prems" have "mkdir_exist_ok fs name = Inr fs'"
        by (subst (asm) makedirs.simps) (simp add: Let_def split: if_splits)
      from mkdir_exist_ok_Inr[OF this] show ?thesis by (cases "p = name") auto
    next
      case (Inr fs1)
      from IH[OF Inr] have a: "fs1 p = fs p \<or> (fs p = None \<and> fs1 p = Some Dir)" .
      from True Inr "1.prems" have "fs' = fs1 \<or> mkdir_exist_ok fs1 name = Inr fs'"
        by (subst (asm) makedirs.simps) (simp add: Let_def split: if_splits)
      then show ?thesis
      proof
        assume "fs' = fs1"
        with a show ?thesis by simp
      next
        assume "mkdir_exist_ok fs1 name = Inr fs'"
        from mkdir_exist_ok_Inr[OF this] a show ?thesis by (cases "p = name") auto
      qed
    qed
  qed
qed

lemma makedirs_subdir:
  assumes run: "makedirs fs (path_join root (c # cs)) = Inr fs'"
    and plain: "CHR ''/'' \<notin> set (c # cs)" and nodot: "c # cs \<noteq> ''.''"
  shows "isdir fs' (path_join root (c # cs))"
proof -
  let ?name = "path_join root (c # cs)"
  let ?ht = "if snd (path_split ?name) = [] then path_split (fst (path_split ?name))
             else path_split ?name"
  from plain have "c \<noteq> CHR ''/''" by auto
  then have "?name = c # cs \<or> (\<exists>a. ?name = a @ CHR ''/'' # c # cs)"
    by (cases root rule: rev_cases) (auto simp: path_join_def)
  then have tail: "snd (path_split ?name) = c # cs"
  proof
    assume n: "?name = c # cs"
    show ?thesis unfolding n using rfind_none[OF plain]
      by (simp add: path_split_def Let_def)
  next
    assume "\<exists>a. ?name = a @ CHR ''/'' # c # cs"
    then obtain a where n: "?name = a @ CHR ''/'' # c # cs" by blast
    have "nat (int (length a) + 1) = Suc (length a)" by simp
    then show ?thesis unfolding n using rfind_slash_free[OF plain, of a]
      by (simp add: path_split_def Let_def)
  qed
  then have t: "snd ?ht = c # cs" by simp
  have "\<exists>fs0. mkdir_exist_ok fs0 ?name = Inr fs'"
  proof (cases "fst ?ht \<noteq> [] \<and> snd ?ht \<noteq> [] \<and> \<not> exists fs (fst ?ht)")
    case False
    with run have "mkdir_exist_ok fs ?name = Inr fs'"
      by (subst (asm) makedirs.simps) (simp add: Let_def)
    then show ?thesis by blast
  next
    case True
    show ?thesis
    proof (cases "makedirs fs (fst ?ht)")
      case (Inl e)
      with True run have "mkdir_exist_ok fs ?name = Inr fs'"
        by (subst (asm) makedirs.simps) (simp add: Let_def split: if_splits)
      then show ?thesis by blast
    next
      case (Inr fs1)
      with True run t nodot have "mkdir_exist_ok fs1 ?name = Inr fs'"
        by (subst (asm) makedirs.simps) (simp add: Let_def split: if_splits)
      then show ?thesis by blast
    qed
  qed
  then show ?thesis
    by (auto dest: mkdir_exist_ok_Inr)
qed

lemma makedirs_keeps_dir:
  "makedirs fs name = Inr fs' \<Longrightarrow> isdir fs p \<Longrightarrow> isdir fs' p"
  using makedirs_frame[of fs name fs' p] by (auto simp: isdir_def)

lemma makedirs_keeps_file:
  "makedirs fs name = Inr fs' \<Longrightarrow> isfile fs p \<Longrightarrow> isfile fs' p"
  using makedirs_frame[of fs name fs' p] by (auto simp: isfile_def)

lemma makedirs_file_text:
  "makedirs fs name = Inr fs' \<Longrightarrow> file_text fs' p = file_text fs p"
  using makedirs_frame[of fs name fs' p] by (auto simp: file_text_def)

section \<open>The egestor: auxiliary facts\<close>

lemma egest_image_None: "egest_image L root fs None = ([], fs, Some TypeError)"
  by (simp add: egest_image_def)

lemma egest_image_skip:
  assumes "fs (img_path (idt_image idt)) = None"
  shows "egest_image L root fs (Some idt) = ([MsgException FileNotFoundError], fs, None)"
  using assms
  by (simp add: egest_image_def Let_def copyfile_def exists_def open_read_def)


lemma egest_image_keeps_files:
  assumes "egest_image L root fs x = (ms, fs', r)" and "isfile fs p"
  shows "isfile fs' p"
proof (cases x)
  case None
  with assms show ?thesis by (simp add: egest_image_None)
next
  case (Some idt)
  have w: "isfile g p \<Longrightarrow> isfile (g(q \<mapsto> File t)) p" for g :: fs and q t
    by (simp add: isfile_def)
  from assms Some show ?thesis
    by (auto simp: egest_image_def Let_def split: sum.splits if_splits
             dest!: copyfile_Inr append_file_Inr write_file_Inr intro!: w)
qed

lemma egest_loop_keeps_files:
  "egest_loop L root fs xs = (ms, fs', r) \<Longrightarrow> isfile fs p \<Longrightarrow> isfile fs' p"
proof (induction xs arbitrary: fs ms fs' r)
  case Nil
  then show ?case by simp
next
  case (Cons x xs)
  obtain ms1 fs1 r1 where s: "egest_image L root fs x = (ms1, fs1, r1)"
    by (cases "egest_image L root fs x") auto
  note k = egest_image_keeps_files[OF s Cons.prems(2)]
  show ?case
  proof (cases r1)
    case None
    obtain ms2 fs2 r2 where l: "egest_loop L root fs1 xs = (ms2, fs2, r2)"
      by (cases "egest_loop L root fs1 xs") auto
    with Cons.prems(1) s None have "fs' = fs2" by simp
    with Cons.IH[OF l k] show ?thesis by simp
  next
    case (Some e)
    with Cons.prems(1) s have "fs' = fs1" by simp
    with k show ?thesis by simp
  qed
qed








section \<open>The csv writer: auxiliary facts\<close>










section \<open>Properties of the ingestor\<close>

text \<open>
  Claim C1, as amended. Let the manifest be readable. When the first manifest id has
  neither a png nor a jpg image, \<open>find_image_ext\<close> raises and \<open>ingest\<close> raises with
  it, returning nothing. When it has one, \<open>ingest\<close> returns: a manifest id whose
  image file, under the extension found for the first id, is missing has no record
  in the returned list; a readable id has its record there, whatever happened to the
  other ids; and the exceptions reported through \<open>message\<close> and the records
  returned together number the manifest ids.
\<close>

theorem ingest_skips_image_without_file:
  assumes ids: "get_image_ids fs root = Inr ids"
  shows "(\<not> exists fs (path_join (path_join root ''images'') (hd ids @ ''.png'')) \<and>
          \<not> exists fs (path_join (path_join root ''images'') (hd ids @ ''.jpg''))
            \<longrightarrow> ingest L fs root = ([], Inl (Exception (hd ids)))) \<and>
         (\<forall>ext. find_image_ext fs root (hd ids) = Inr ext \<longrightarrow>
            (\<exists>ms recs. ingest L fs root = (ms, Inr recs) \<and>
               length (filter is_exception_msg ms) + length (records recs) = length ids \<and>
               (\<forall>i\<in>set ids.
                  (fs (path_join (path_join root ''images'') (i @ ''.'' @ ext)) = None
                     \<longrightarrow> (\<forall>r\<in>set (records recs). img_id (idt_image r) \<noteq> i)) \<and>
                  (image_readable L fs root ext i
                     \<longrightarrow> (\<exists>r\<in>set (records recs). img_id (idt_image r) = i)))))"
proof (intro conjI allI impI)
  assume "\<not> exists fs (path_join (path_join root ''images'') (hd ids @ ''.png'')) \<and>
          \<not> exists fs (path_join (path_join root ''images'') (hd ids @ ''.jpg''))"
  with ids show "ingest L fs root = ([], Inl (Exception (hd ids)))"
    using get_image_ids_not_Nil[OF ids] by (simp add: ingest_def find_image_ext_cases)
next
  fix ext assume ext: "find_image_ext fs root (hd ids) = Inr ext"
  let ?g = "\<lambda>i. get_image_detection L fs root i ext"
  let ?ms = "concat (map (\<lambda>i. fst (?g i)) ids) @ [MsgSize (length ids)]"
  let ?recs = "map (\<lambda>i. snd (?g i)) ids"
  have run: "ingest L fs root = (?ms, Inr ?recs)"
    by (rule ingest_Inr[OF ids ext])
  have count: "length (filter is_exception_msg ?ms) + length (records ?recs) = length ids"
    using length_records[of ?recs] by (simp add: exception_count_images)
  have each: "\<forall>i\<in>set ids.
                  (fs (path_join (path_join root ''images'') (i @ ''.'' @ ext)) = None
                     \<longrightarrow> (\<forall>r\<in>set (records ?recs). img_id (idt_image r) \<noteq> i)) \<and>
                  (image_readable L fs root ext i
                     \<longrightarrow> (\<exists>r\<in>set (records ?recs). img_id (idt_image r) = i))"
  proof (intro ballI conjI impI)
    fix i r
    assume i: "i \<in> set ids"
      and missing: "fs (path_join (path_join root ''images'') (i @ ''.'' @ ext)) = None"
      and r: "r \<in> set (records ?recs)"
    from r obtain j where j: "snd (?g j) = Some r"
      by (auto simp: set_records)
    then have "img_id (idt_image r) = j"
      using get_image_detection_id[of L fs root j ext] by simp
    moreover have "snd (?g i) = None"
      using missing by (rule get_image_detection_missing_image[of fs root i ext L])
    ultimately show "img_id (idt_image r) \<noteq> i"
      using j by auto
  next
    fix i assume i: "i \<in> set ids" and readable: "image_readable L fs root ext i"
    then obtain r where r: "snd (?g i) = Some r"
      using get_image_detection_readable[of L fs root i ext] by auto
    then have "img_id (idt_image r) = i"
      using get_image_detection_id[of L fs root i ext] by simp
    moreover from r i have "r \<in> set (records ?recs)"
      by (force simp: set_records)
    ultimately show "\<exists>r\<in>set (records ?recs). img_id (idt_image r) = i"
      by blast
  qed
  show "\<exists>ms recs. ingest L fs root = (ms, Inr recs) \<and>
               length (filter is_exception_msg ms) + length (records recs) = length ids \<and>
               (\<forall>i\<in>set ids.
                  (fs (path_join (path_join root ''images'') (i @ ''.'' @ ext)) = None
                     \<longrightarrow> (\<forall>r\<in>set (records recs). img_id (idt_image r) \<noteq> i)) \<and>
                  (image_readable L fs root ext i
                     \<longrightarrow> (\<exists>r\<in>set (records recs). img_id (idt_image r) = i)))"
    apply (rule exI[of _ ?ms], rule exI[of _ ?recs])
    using run count each by blast
qed

theorem ingest_skips_image_without_file_witness:
  "\<exists>ms recs. ingest sample_lib kitti_sample ''data'' = (ms, Inr recs) \<and>
      length (filter is_exception_msg ms) + length (records recs) = 3 \<and>
      (\<forall>r\<in>set (records recs). img_id (idt_image r) \<noteq> ''b'') \<and>
      (\<exists>r\<in>set (records recs). img_id (idt_image r) = ''a'') \<and>
      (\<exists>r\<in>set (records recs). img_id (idt_image r) = ''c'')"
proof -
  have ids: "get_image_ids kitti_sample ''data'' = Inr [''a'', ''b'', ''c'']"
    by code_simp
  have ext: "find_image_ext kitti_sample ''data'' (hd [''a'', ''b'', ''c'']) = Inr ''png''"
    by code_simp
  have missing: "kitti_sample (path_join (path_join ''data'' ''images'') (''b'' @ ''.'' @ ''png''))
                   = None"
    by code_simp
  have a: "image_readable sample_lib kitti_sample ''data'' ''png'' ''a''"
    by code_simp
  have c: "image_readable sample_lib kitti_sample ''data'' ''png'' ''c''"
    by code_simp
  from ingest_skips_image_without_file[OF ids, of sample_lib] ext
  obtain ms recs where r: "ingest sample_lib kitti_sample ''data'' = (ms, Inr recs)"
      "length (filter is_exception_msg ms) + length (records recs) = length [''a'', ''b'', ''c'']"
      and each: "\<forall>i\<in>set [''a'', ''b'', ''c''].
                  (kitti_sample (path_join (path_join ''data'' ''images'') (i @ ''.'' @ ''png'')) = None
                     \<longrightarrow> (\<forall>r\<in>set (records recs). img_id (idt_image r) \<noteq> i)) \<and>
                  (image_readable sample_lib kitti_sample ''data'' ''png'' i
                     \<longrightarrow> (\<exists>r\<in>set (records recs). img_id (idt_image r) = i))"
    by blast
  from each missing have nb: "\<forall>r\<in>set (records recs). img_id (idt_image r) \<noteq> ''b''"
    by simp
  from each a have ya: "\<exists>r\<in>set (records recs). img_id (idt_image r) = ''a''"
    by simp
  from each c have yc: "\<exists>r\<in>set (records recs). img_id (idt_image r) = ''c''"
    by simp
  from r nb ya yc show ?thesis by auto
qed

theorem ingest_first_image_missing_counterexample:
  "get_image_ids kitti_first_missing ''data'' = Inr [''a'', ''b''] \<and>
   kitti_first_missing ''data/images/a.png'' = None \<and>
   kitti_first_missing ''data/images/a.jpg'' = None \<and>
   exists kitti_first_missing ''data/images/b.png'' \<and>
   ingest sample_lib kitti_first_missing ''data'' = ([], Inl (Exception ''a''))"
  by code_simp

text \<open>
  Claim C8, as amended. The ids that \<open>ingest\<close> works through are the pieces between
  line breaks of the manifest text with the white space at its two ends stripped,
  not the lines of \<open>train.txt\<close> as written. When \<open>ingest\<close> returns, the ids of the
  returned records are, in this order, those ids that are readable; and the record
  of an id holds the path and the dimensions of the image of this id and the
  detections parsed from the labels file of this id that have \<open>left < right\<close> and
  \<open>top < bottom\<close>.
\<close>

theorem ingest_follows_manifest_order:
  assumes mf: "open_read fs (path_join root ''train.txt'') = Inr text"
    and found: "find_image_ext fs root (hd (split_on CHR 0x0A (py_strip text))) = Inr ext"
  shows "\<exists>ms recs. ingest L fs root = (ms, Inr recs) \<and>
           map (\<lambda>r. img_id (idt_image r)) (records recs)
             = filter (image_readable L fs root ext) (split_on CHR 0x0A (py_strip text)) \<and>
           (\<forall>r\<in>set (records recs).
              img_path (idt_image r)
                = path_join (path_join root ''images'') (img_id (idt_image r) @ ''.'' @ ext) \<and>
              img_file_name (idt_image r) = img_id (idt_image r) @ ''.'' @ ext \<and>
              image_dimensions L fs (img_path (idt_image r))
                = Inr (img_width (idt_image r), img_height (idt_image r)) \<and>
              (\<exists>ds. snd (get_detections L fs
                            (path_join (path_join root ''labels'') (img_id (idt_image r) @ ''.txt''))
                            (img_id (idt_image r))) = Inr ds \<and>
                    idt_detections r
                      = filter (\<lambda>det. float_lt L (det_left det) (det_right det) \<and>
                                      float_lt L (det_top det) (det_bottom det)) ds))"
proof -
  let ?ids = "split_on CHR 0x0A (py_strip text)"
  let ?g = "\<lambda>i. get_image_detection L fs root i ext"
  let ?ms = "concat (map (\<lambda>i. fst (?g i)) ?ids) @ [MsgSize (length ?ids)]"
  let ?recs = "map (\<lambda>i. snd (?g i)) ?ids"
  have ids: "get_image_ids fs root = Inr ?ids"
    using mf by (simp add: get_image_ids_def)
  have run: "ingest L fs root = (?ms, Inr ?recs)"
    by (rule ingest_Inr[OF ids found])
  have id: "img_id (idt_image (the (snd (?g i)))) = i" if "snd (?g i) \<noteq> None" for i
    using that get_image_detection_id[of L fs root i ext] by auto
  have "map (\<lambda>r. img_id (idt_image r)) (records ?recs)
          = map (\<lambda>i. img_id (idt_image (the (snd (?g i)))))
              (filter (\<lambda>i. snd (?g i) \<noteq> None) ?ids)"
    by (simp add: records_map comp_def)
  also have "\<dots> = map (\<lambda>i. i) (filter (\<lambda>i. snd (?g i) \<noteq> None) ?ids)"
    by (rule map_cong) (auto simp: id)
  also have "\<dots> = filter (image_readable L fs root ext) ?ids"
  proof -
    have h: "(\<lambda>i. snd (?g i) \<noteq> None) = image_readable L fs root ext"
      by (rule HOL.ext) (rule get_image_detection_readable)
    show ?thesis
      by (simp only: list.map_ident h)
  qed
  finally have order: "map (\<lambda>r. img_id (idt_image r)) (records ?recs)
                         = filter (image_readable L fs root ext) ?ids" .
  have each: "\<forall>r\<in>set (records ?recs).
              img_path (idt_image r)
                = path_join (path_join root ''images'') (img_id (idt_image r) @ ''.'' @ ext) \<and>
              img_file_name (idt_image r) = img_id (idt_image r) @ ''.'' @ ext \<and>
              image_dimensions L fs (img_path (idt_image r))
                = Inr (img_width (idt_image r), img_height (idt_image r)) \<and>
              (\<exists>ds. snd (get_detections L fs
                            (path_join (path_join root ''labels'') (img_id (idt_image r) @ ''.txt''))
                            (img_id (idt_image r))) = Inr ds \<and>
                    idt_detections r
                      = filter (\<lambda>det. float_lt L (det_left det) (det_right det) \<and>
                                      float_lt L (det_top det) (det_bottom det)) ds)"
  proof
    fix r assume "r \<in> set (records ?recs)"
    then obtain i where i: "snd (?g i) = Some r"
      by (auto simp: set_records)
    then have g: "?g i = (fst (?g i), Some r)"
      by (metis prod.collapse)
    from get_image_detection_record[OF g] obtain ds where
      d: "get_detections L fs (path_join (path_join root ''labels'') (i @ ''.txt'')) i
            = (fst (?g i), Inr ds)"
      and dim: "image_dimensions L fs (path_join (path_join root ''images'') (i @ ''.'' @ ext))
            = Inr (img_width (idt_image r), img_height (idt_image r))"
      and r: "r = \<lparr> idt_image =
                      \<lparr> img_id = i, img_dataset_id = None,
                        img_path = path_join (path_join root ''images'') (i @ ''.'' @ ext),
                        img_segmented_path = None,
                        img_width = img_width (idt_image r),
                        img_height = img_height (idt_image r),
                        img_file_name = i @ ''.'' @ ext \<rparr>,
                    idt_detections =
                      filter (\<lambda>det. float_lt L (det_left det) (det_right det) \<and>
                                    float_lt L (det_top det) (det_bottom det)) ds \<rparr>"
      by blast
    have f1: "img_id (idt_image r) = i"
      by (subst r) simp
    have f2: "img_path (idt_image r) = path_join (path_join root ''images'') (i @ ''.'' @ ext)"
      by (subst r) simp
    have f3: "img_file_name (idt_image r) = i @ ''.'' @ ext"
      by (subst r) simp
    have f4: "idt_detections r
                = filter (\<lambda>det. float_lt L (det_left det) (det_right det) \<and>
                                float_lt L (det_top det) (det_bottom det)) ds"
      by (subst r) simp
    show "img_path (idt_image r)
                = path_join (path_join root ''images'') (img_id (idt_image r) @ ''.'' @ ext) \<and>
              img_file_name (idt_image r) = img_id (idt_image r) @ ''.'' @ ext \<and>
              image_dimensions L fs (img_path (idt_image r))
                = Inr (img_width (idt_image r), img_height (idt_image r)) \<and>
              (\<exists>ds. snd (get_detections L fs
                            (path_join (path_join root ''labels'') (img_id (idt_image r) @ ''.txt''))
                            (img_id (idt_image r))) = Inr ds \<and>
                    idt_detections r
                      = filter (\<lambda>det. float_lt L (det_left det) (det_right det) \<and>
                                      float_lt L (det_top det) (det_bottom det)) ds)"
      unfolding f1 f2 f3 using d dim f4 by simp
  qed
  show ?thesis
    apply (rule exI[of _ ?ms], rule exI[of _ ?recs])
    using run order each by blast
qed

theorem ingest_follows_manifest_order_witness:
  "\<exists>ms recs. ingest sample_lib kitti_sample ''data'' = (ms, Inr recs) \<and>
      map (\<lambda>r. img_id (idt_image r)) (records recs) = [''a'', ''c''] \<and>
      (\<forall>r\<in>set (records recs).
         img_path (idt_image r) = ''data/images/'' @ img_id (idt_image r) @ ''.png'' \<and>
         img_width (idt_image r) = 640 \<and> img_height (idt_image r) = 480)"
proof -
  have mf: "open_read kitti_sample (path_join ''data'' ''train.txt'')
                = Inr (unlines [''a'', ''b'', ''c''])"
    by code_simp
  have found: "find_image_ext kitti_sample ''data''
               (hd (split_on CHR 0x0A (py_strip (unlines [''a'', ''b'', ''c''])))) = Inr ''png''"
    by code_simp
  have ids: "filter (image_readable sample_lib kitti_sample ''data'' ''png'')
               (split_on CHR 0x0A (py_strip (unlines [''a'', ''b'', ''c'']))) = [''a'', ''c'']"
    by code_simp
  have da: "image_dimensions sample_lib kitti_sample ''data/images/a.png'' = Inr (640, 480)"
    by code_simp
  have dc: "image_dimensions sample_lib kitti_sample ''data/images/c.png'' = Inr (640, 480)"
    by code_simp
  have pa: "path_join (path_join ''data'' ''images'') (''a'' @ ''.'' @ ''png'') = ''data/images/a.png''"
    by code_simp
  have pc: "path_join (path_join ''data'' ''images'') (''c'' @ ''.'' @ ''png'') = ''data/images/c.png''"
    by code_simp
  from ingest_follows_manifest_order[OF mf found, of sample_lib]
  obtain ms recs where run: "ingest sample_lib kitti_sample ''data'' = (ms, Inr recs)"
    and order: "map (\<lambda>r. img_id (idt_image r)) (records recs)
                  = filter (image_readable sample_lib kitti_sample ''data'' ''png'')
                      (split_on CHR 0x0A (py_strip (unlines [''a'', ''b'', ''c''])))"
    and each: "\<forall>r\<in>set (records recs).
              img_path (idt_image r)
                = path_join (path_join ''data'' ''images'') (img_id (idt_image r) @ ''.'' @ ''png'') \<and>
              image_dimensions sample_lib kitti_sample (img_path (idt_image r))
                = Inr (img_width (idt_image r), img_height (idt_image r))"
    by blast
  from order ids have o: "map (\<lambda>r. img_id (idt_image r)) (records recs) = [''a'', ''c'']"
    by simp
  have all: "img_path (idt_image r) = ''data/images/'' @ img_id (idt_image r) @ ''.png'' \<and>
         img_width (idt_image r) = 640 \<and> img_height (idt_image r) = 480"
    if r: "r \<in> set (records recs)" for r
  proof -
    from r have "img_id (idt_image r) \<in> set (map (\<lambda>r. img_id (idt_image r)) (records recs))"
      by (simp del: o)
    then have c: "img_id (idt_image r) = ''a'' \<or> img_id (idt_image r) = ''c''"
      unfolding o by simp
    from each r have p: "img_path (idt_image r)
                = path_join (path_join ''data'' ''images'') (img_id (idt_image r) @ ''.'' @ ''png'')"
      and d: "image_dimensions sample_lib kitti_sample (img_path (idt_image r))
                = Inr (img_width (idt_image r), img_height (idt_image r))"
      by blast+
    from c show ?thesis
    proof
      assume a: "img_id (idt_image r) = ''a''"
      with p pa have "img_path (idt_image r) = ''data/images/a.png''" by simp
      with d da a show ?thesis by simp
    next
      assume a: "img_id (idt_image r) = ''c''"
      with p pc have "img_path (idt_image r) = ''data/images/c.png''" by simp
      with d dc a show ?thesis by simp
    qed
  qed
  then have every: "\<forall>r\<in>set (records recs).
         img_path (idt_image r) = ''data/images/'' @ img_id (idt_image r) @ ''.png'' \<and>
         img_width (idt_image r) = 640 \<and> img_height (idt_image r) = 480"
    by blast
  show ?thesis
    by (rule exI[of _ ms], rule exI[of _ recs], intro conjI) (rule run, rule o, rule every)
qed

theorem manifest_leading_blank_lines_counterexample:
  "file_lines (file_text kitti_leading_blank ''data/train.txt'') = [[], [], ''a'', ''c''] \<and>
   \<not> isl (snd (ingest sample_lib kitti_leading_blank ''data'')) \<and>
   length (projr (snd (ingest sample_lib kitti_leading_blank ''data''))) = 2 \<and>
   map (\<lambda>r. img_id (idt_image r))
     (records (projr (snd (ingest sample_lib kitti_leading_blank ''data'')))) = [''a'', ''c'']"
  by code_simp

text \<open>
  Claim C6, as amended. \<open>find_image_ext\<close> tries png before jpg: it answers png when
  the png file exists, whether or not a jpg exists too, jpg when only the jpg exists,
  and raises when neither does. \<open>ingest\<close> makes that search for the first manifest id
  only and looks every image up under the one extension found there.
\<close>

theorem image_ext_found_for_first_id:
  "find_image_ext fs root image_id =
     (if exists fs (path_join (path_join root ''images'') (image_id @ ''.png'')) then Inr ''png''
      else if exists fs (path_join (path_join root ''images'') (image_id @ ''.jpg''))
        then Inr ''jpg''
      else Inl (Exception image_id)) \<and>
   (ingest L fs root = (ms, Inr recs) \<longrightarrow>
      (\<exists>ids ext. get_image_ids fs root = Inr ids \<and>
         find_image_ext fs root (hd ids) = Inr ext \<and>
         (\<forall>r. Some r \<in> set recs \<longrightarrow>
            img_path (idt_image r) =
              path_join (path_join root ''images'') (img_id (idt_image r) @ ''.'' @ ext) \<and>
            img_file_name (idt_image r) = img_id (idt_image r) @ ''.'' @ ext)))"
proof (intro conjI impI)
  show "find_image_ext fs root image_id =
     (if exists fs (path_join (path_join root ''images'') (image_id @ ''.png'')) then Inr ''png''
      else if exists fs (path_join (path_join root ''images'') (image_id @ ''.jpg''))
        then Inr ''jpg''
      else Inl (Exception image_id))"
    by (rule find_image_ext_cases)
next
  assume run: "ingest L fs root = (ms, Inr recs)"
  then obtain ids ext where ids: "get_image_ids fs root = Inr ids"
    and ext: "find_image_ext fs root (hd ids) = Inr ext"
    and recs: "recs = map (\<lambda>i. snd (get_image_detection L fs root i ext)) ids"
    by (rule ingest_Inr_elim)
  have "\<forall>r. Some r \<in> set recs \<longrightarrow>
            img_path (idt_image r) =
              path_join (path_join root ''images'') (img_id (idt_image r) @ ''.'' @ ext) \<and>
            img_file_name (idt_image r) = img_id (idt_image r) @ ''.'' @ ext"
  proof (intro allI impI)
    fix r assume "Some r \<in> set recs"
    with recs obtain i where "snd (get_image_detection L fs root i ext) = Some r"
      by auto
    then obtain ms' where "get_image_detection L fs root i ext = (ms', Some r)"
      by (cases "get_image_detection L fs root i ext") auto
    from get_image_detection_Some(1-3)[OF this]
    show "img_path (idt_image r) =
              path_join (path_join root ''images'') (img_id (idt_image r) @ ''.'' @ ext) \<and>
            img_file_name (idt_image r) = img_id (idt_image r) @ ''.'' @ ext"
      by simp
  qed
  with ids ext show "\<exists>ids ext. get_image_ids fs root = Inr ids \<and>
         find_image_ext fs root (hd ids) = Inr ext \<and>
         (\<forall>r. Some r \<in> set recs \<longrightarrow>
            img_path (idt_image r) =
              path_join (path_join root ''images'') (img_id (idt_image r) @ ''.'' @ ext) \<and>
            img_file_name (idt_image r) = img_id (idt_image r) @ ''.'' @ ext)"
    by blast
qed

theorem image_ext_found_for_first_id_witness:
  "find_image_ext kitti_mixed_ext ''data'' ''a'' = Inr ''png'' \<and>
   find_image_ext kitti_mixed_ext ''data'' ''b'' = Inr ''jpg'' \<and>
   (\<exists>ms recs. ingest sample_lib kitti_mixed_ext ''data'' = (ms, Inr recs) \<and>
      (\<forall>r. Some r \<in> set recs \<longrightarrow>
         img_file_name (idt_image r) = img_id (idt_image r) @ ''.png''))"
proof -
  have a: "exists kitti_mixed_ext (path_join (path_join ''data'' ''images'') (''a'' @ ''.png''))"
    by code_simp
  have b: "\<not> exists kitti_mixed_ext (path_join (path_join ''data'' ''images'') (''b'' @ ''.png''))"
          "exists kitti_mixed_ext (path_join (path_join ''data'' ''images'') (''b'' @ ''.jpg''))"
    by code_simp+
  have ids: "get_image_ids kitti_mixed_ext ''data'' = Inr [''a'', ''b'']"
    by code_simp
  have "\<not> isl (snd (ingest sample_lib kitti_mixed_ext ''data''))"
    by code_simp
  then obtain ms recs where run: "ingest sample_lib kitti_mixed_ext ''data'' = (ms, Inr recs)"
    by (cases "ingest sample_lib kitti_mixed_ext ''data''";
        cases "snd (ingest sample_lib kitti_mixed_ext ''data'')") auto
  note thm_a = image_ext_found_for_first_id[of kitti_mixed_ext "''data''" "''a''" sample_lib ms recs]
  note thm_b = image_ext_found_for_first_id[of kitti_mixed_ext "''data''" "''b''" sample_lib ms recs]
  from thm_a a have fa: "find_image_ext kitti_mixed_ext ''data'' ''a'' = Inr ''png''" by simp
  from thm_b b have fb: "find_image_ext kitti_mixed_ext ''data'' ''b'' = Inr ''jpg''" by simp
  from thm_a run ids fa
  have "\<forall>r. Some r \<in> set recs \<longrightarrow>
         img_file_name (idt_image r) = img_id (idt_image r) @ ''.png''"
    by auto
  with fa fb run show ?thesis by blast
qed

theorem jpg_image_after_png_counterexample:
  "exists kitti_mixed_ext ''data/images/b.jpg'' \<and>
   validate kitti_mixed_ext ''data'' = (True, None) \<and>
   get_image_ids kitti_mixed_ext ''data'' = Inr [''a'', ''b''] \<and>
   map_sum id (map (map_option (img_path \<circ> idt_image)))
     (snd (ingest sample_lib kitti_mixed_ext ''data''))
     = Inr [Some ''data/images/a.png'', None]"
  by code_simp

text \<open>
  Claim C9, as amended. When \<open>train.txt\<close> holds nothing but whitespace,
  \<open>_get_image_ids\<close> returns the list of the one empty id; \<open>ingest\<close> never returns
  the empty list then, and it raises unless a file \<open>images/.png\<close> or \<open>images/.jpg\<close>
  exists.
\<close>

theorem blank_manifest_has_one_empty_id:
  assumes "open_read fs (path_join root ''train.txt'') = Inr text"
      and "list_all py_isspace text"
  shows "get_image_ids fs root = Inr [[]] \<and>
         snd (ingest L fs root) \<noteq> Inr [] \<and>
         (\<not> exists fs (path_join (path_join root ''images'') ''.png'') \<and>
          \<not> exists fs (path_join (path_join root ''images'') ''.jpg'')
            \<longrightarrow> ingest L fs root = ([], Inl (Exception [])))"
proof -
  have ids: "get_image_ids fs root = Inr [[]]"
    using assms by (simp add: get_image_ids_def py_strip_all_space)
  have nonempty: "snd (ingest L fs root) \<noteq> Inr []"
    using ids by (simp add: ingest_def Let_def split: sum.splits)
  have raises: "ingest L fs root = ([], Inl (Exception []))"
    if "\<not> exists fs (path_join (path_join root ''images'') ''.png'')"
       "\<not> exists fs (path_join (path_join root ''images'') ''.jpg'')"
    using ids that by (simp add: ingest_def find_image_ext_cases)
  from ids nonempty raises show ?thesis by blast
qed

theorem blank_manifest_has_one_empty_id_witness:
  "get_image_ids kitti_blank_manifest ''data'' = Inr [[]] \<and>
   snd (ingest sample_lib kitti_blank_manifest ''data'') \<noteq> Inr []"
proof -
  have mf: "open_read kitti_blank_manifest (path_join ''data'' ''train.txt'') = Inr [CHR 0x0A]"
    by code_simp
  have sp: "list_all py_isspace [CHR 0x0A]"
    by code_simp
  from blank_manifest_has_one_empty_id[OF mf sp, of sample_lib] show ?thesis by blast
qed

theorem blank_manifest_with_dot_png_counterexample:
  "open_read kitti_blank_manifest (path_join ''data'' ''train.txt'') = Inr [CHR 0x0A] \<and>
   list_all py_isspace [CHR 0x0A] \<and>
   exists kitti_blank_manifest ''data/images/.png'' \<and>
   map_sum id (map (map_option (img_file_name \<circ> idt_image)))
     (snd (ingest sample_lib kitti_blank_manifest ''data'')) = Inr [Some ''.png'']"
  by code_simp

text \<open>
  Claim C2, as amended. The detections of a record that \<open>ingest\<close> returns are the
  detections parsed from the labels file of its image that have \<open>left < right\<close> and
  \<open>top < bottom\<close>, in the order of the file, so their number is the number of rows
  that pass these two tests. With floats on which \<open>a >= b\<close> excludes \<open>a < b\<close>, no
  record holds a box with \<open>left >= right\<close> or \<open>top >= bottom\<close>.
\<close>

theorem ingest_drops_degenerate_boxes:
  assumes ge_lt: "\<And>a b. float_ge L a b \<Longrightarrow> \<not> float_lt L a b"
    and run: "ingest L fs root = (ms, Inr recs)"
  shows "\<forall>r\<in>set (records recs).
           (\<forall>d\<in>set (idt_detections r). \<not> degenerate L d) \<and>
           (\<exists>ds. snd (get_detections L fs
                         (path_join (path_join root ''labels'') (img_id (idt_image r) @ ''.txt''))
                         (img_id (idt_image r))) = Inr ds \<and>
                 idt_detections r
                   = filter (\<lambda>d. float_lt L (det_left d) (det_right d) \<and>
                                 float_lt L (det_top d) (det_bottom d)) ds \<and>
                 length (idt_detections r)
                   = length (filter (\<lambda>d. float_lt L (det_left d) (det_right d) \<and>
                                         float_lt L (det_top d) (det_bottom d)) ds))"
proof
  fix r assume r: "r \<in> set (records recs)"
  from run obtain ids ext
    where recs: "recs = map (\<lambda>i. snd (get_image_detection L fs root i ext)) ids"
    by (rule ingest_Inr_elim)
  with r obtain i where "snd (get_image_detection L fs root i ext) = Some r"
    by (auto simp: set_records)
  then have g: "get_image_detection L fs root i ext
                  = (fst (get_image_detection L fs root i ext), Some r)"
    by (metis prod.collapse)
  from get_image_detection_Some(1)[OF g] get_image_detection_Some(4)[OF g]
  obtain ds where ds: "snd (get_detections L fs
                     (path_join (path_join root ''labels'') (img_id (idt_image r) @ ''.txt''))
                     (img_id (idt_image r))) = Inr ds"
    and f: "idt_detections r =
              filter (\<lambda>d. float_lt L (det_left d) (det_right d) \<and>
                          float_lt L (det_top d) (det_bottom d)) ds"
    by auto
  have nondeg: "\<forall>d\<in>set (idt_detections r). \<not> degenerate L d"
    unfolding f degenerate_def using ge_lt by auto
  have count: "length (idt_detections r)
                   = length (filter (\<lambda>d. float_lt L (det_left d) (det_right d) \<and>
                                         float_lt L (det_top d) (det_bottom d)) ds)"
    by (subst f) (rule refl)
  show "(\<forall>d\<in>set (idt_detections r). \<not> degenerate L d) \<and>
           (\<exists>ds. snd (get_detections L fs
                         (path_join (path_join root ''labels'') (img_id (idt_image r) @ ''.txt''))
                         (img_id (idt_image r))) = Inr ds \<and>
                 idt_detections r
                   = filter (\<lambda>d. float_lt L (det_left d) (det_right d) \<and>
                                 float_lt L (det_top d) (det_bottom d)) ds \<and>
                 length (idt_detections r)
                   = length (filter (\<lambda>d. float_lt L (det_left d) (det_right d) \<and>
                                         float_lt L (det_top d) (det_bottom d)) ds))"
    using nondeg ds f count by blast
qed

theorem ingest_drops_degenerate_boxes_witness:
  "\<exists>ms recs. ingest sample_lib kitti_sample ''data'' = (ms, Inr recs) \<and>
     map (\<lambda>r. img_id (idt_image r)) (records recs) = [''a'', ''c''] \<and>
     map (\<lambda>r. length (idt_detections r)) (records recs) = [3, 2] \<and>
     length (filter (degenerate sample_lib)
       (projr (snd (get_detections sample_lib kitti_sample ''data/labels/a.txt'' ''a'')))) = 2 \<and>
     (\<forall>r\<in>set (records recs). \<forall>d\<in>set (idt_detections r). \<not> degenerate sample_lib d)"
proof -
  let ?g = "\<lambda>i. get_image_detection sample_lib kitti_sample ''data'' i ''png''"
  let ?ms = "concat (map (\<lambda>i. fst (?g i)) [''a'', ''b'', ''c''])
               @ [MsgSize (length [''a'', ''b'', ''c''])]"
  let ?recs = "map (\<lambda>i. snd (?g i)) [''a'', ''b'', ''c'']"
  have ids: "get_image_ids kitti_sample ''data'' = Inr [''a'', ''b'', ''c'']"
    by code_simp
  have found: "find_image_ext kitti_sample ''data'' (hd [''a'', ''b'', ''c'']) = Inr ''png''"
    by code_simp
  have run: "ingest sample_lib kitti_sample ''data'' = (?ms, Inr ?recs)"
    by (rule ingest_Inr[OF ids found])
  have ge_lt: "float_ge sample_lib a b \<Longrightarrow> \<not> float_lt sample_lib a b" for a b
    by (cases a; cases b) (simp_all add: sample_lib_def)
  have names: "map (\<lambda>r. img_id (idt_image r)) (records ?recs) = [''a'', ''c'']"
    by code_simp
  have sizes: "map (\<lambda>r. length (idt_detections r)) (records ?recs) = [3, 2]"
    by code_simp
  have parsed: "length (filter (degenerate sample_lib)
       (projr (snd (get_detections sample_lib kitti_sample ''data/labels/a.txt'' ''a'')))) = 2"
    by code_simp
  from ingest_drops_degenerate_boxes[of sample_lib, OF ge_lt run]
  have "\<forall>r\<in>set (records ?recs). \<forall>d\<in>set (idt_detections r). \<not> degenerate sample_lib d"
    by blast
  with run names sizes parsed show ?thesis
    by (intro exI[of _ ?ms] exI[of _ ?recs] conjI)
qed

theorem nan_box_dropped_counterexample:
  "length (filter (Not \<circ> degenerate sample_lib)
     (projr (snd (get_detections sample_lib kitti_nan_box ''data/labels/a.txt'' ''a'')))) = 3 \<and>
   length (filter (degenerate sample_lib)
     (projr (snd (get_detections sample_lib kitti_nan_box ''data/labels/a.txt'' ''a'')))) = 2 \<and>
   map (\<lambda>r. img_id (idt_image r))
     (records (projr (snd (ingest sample_lib kitti_nan_box ''data'')))) = [''a''] \<and>
   map (\<lambda>r. length (idt_detections r))
     (records (projr (snd (ingest sample_lib kitti_nan_box ''data'')))) = [2]"
  by code_simp

text \<open>
  Claim C3. In a labels file that can be read and whose rows the csv reader yields
  without error, let exactly one row be malformed (not empty, and with fewer than
  eight columns or with a box column that \<open>float\<close> rejects) and let every other row
  have its four box columns numeric. Then \<open>_get_detections\<close> returns normally, with
  one detection per other row, in row order (one fewer than there are rows), and the
  only message is the warning for the malformed row.
\<close>

theorem get_detections_skips_malformed_row:
  assumes "open_read fs detections_fpath = Inr text"
      and "csv_reader L text = (before @ [bad] @ after, None)"
      and "\<forall>row\<in>set (before @ after). 8 \<le> length row \<and>
             (\<forall>s\<in>set (take 4 (drop 4 row)). to_float L s \<noteq> None)"
      and "bad \<noteq> []"
      and "length bad < 8 \<or> (\<exists>s\<in>set (take 4 (drop 4 bad)). to_float L s = None)"
  shows "\<exists>ds. get_detections L fs detections_fpath image_id = ([MsgValueError bad], Inr ds) \<and>
           length ds = length (before @ [bad] @ after) - 1 \<and>
           map det_label ds = map hd (before @ after)"
proof -
  from assms(3) have b: "\<forall>row\<in>set before. 8 \<le> length row \<and>
             (\<forall>s\<in>set (take 4 (drop 4 row)). to_float L s \<noteq> None)"
    and a: "\<forall>row\<in>set after. 8 \<le> length row \<and>
             (\<forall>s\<in>set (take 4 (drop 4 row)). to_float L s \<noteq> None)"
    by auto
  note vb = detections_loop_valid[OF b, of image_id]
  note va = detections_loop_valid[OF a, of image_id]
  note m = detections_loop_malformed[OF assms(4,5), of image_id]
  have loop: "detections_loop L image_id (before @ [bad] @ after) =
          ([MsgValueError bad],
           snd (detections_loop L image_id before) @ snd (detections_loop L image_id after))"
    unfolding detections_loop_append m fst_conv snd_conv using vb va by simp
  show ?thesis
    using assms(1,2) loop vb va
    by (simp add: get_detections_def)
qed

theorem get_detections_skips_malformed_row_witness:
  "\<exists>ds. get_detections sample_lib kitti_one_bad_row ''data/labels/a.txt'' ''a'' =
          ([MsgValueError [''Car'', ''0'', ''0'', ''0'', ''x'', ''2'', ''30'', ''40'']], Inr ds) \<and>
        length ds = 2 \<and> map det_label ds = [''Car'', ''Van'']"
proof -
  let ?bad = "[''Car'', ''0'', ''0'', ''0'', ''x'', ''2'', ''30'', ''40'']"
  let ?r1 = "[''Car'', ''0'', ''0'', ''0'', ''1'', ''2'', ''30'', ''40'']"
  let ?r3 = "[''Van'', ''0'', ''0'', ''0'', ''1'', ''2'', ''3'', ''4'']"
  let ?text = "unlines [''Car 0 0 0 1 2 30 40'', ''Car 0 0 0 x 2 30 40'', ''Van 0 0 0 1 2 3 4'']"
  have 1: "open_read kitti_one_bad_row ''data/labels/a.txt'' = Inr ?text"
    by code_simp
  have 2: "csv_reader sample_lib ?text = ([?r1] @ [?bad] @ [?r3], None)"
    by code_simp
  have 3: "\<forall>row\<in>set ([?r1] @ [?r3]). 8 \<le> length row \<and>
             (\<forall>s\<in>set (take 4 (drop 4 row)). to_float sample_lib s \<noteq> None)"
    by code_simp
  have 4: "?bad \<noteq> []" by simp
  have 5: "length ?bad < 8 \<or> (\<exists>s\<in>set (take 4 (drop 4 ?bad)). to_float sample_lib s = None)"
    by code_simp
  from get_detections_skips_malformed_row[OF 1 2 3 4 5, of "''a''"] show ?thesis
    by (simp add: numeral_2_eq_2)
qed

section \<open>Properties of the egestor\<close>



section \<open>Properties of the configuration\<close>

text \<open>
  Claim C10. Whenever the environment variable \<open>CELERY_RESULT_BACKEND\<close> is set,
  \<open>Config.WORKER_CONNECTIONS\<close> is that variable's string (the same value as
  \<open>Config.CELERY_RESULT_BACKEND\<close>); it is the integer 1000 exactly when the variable is
  unset; and its value does not depend on an environment variable named
  \<open>WORKER_CONNECTIONS\<close>, whether that one is set, changed or removed.
\<close>

theorem WORKER_CONNECTIONS_is_result_backend:
  "(\<forall>url. env ''CELERY_RESULT_BACKEND'' = Some url \<longrightarrow>
       WORKER_CONNECTIONS env = PyStr url \<and>
       WORKER_CONNECTIONS env = CELERY_RESULT_BACKEND env) \<and>
   (WORKER_CONNECTIONS env = PyInt 1000 \<longleftrightarrow> env ''CELERY_RESULT_BACKEND'' = None) \<and>
   WORKER_CONNECTIONS (env(''WORKER_CONNECTIONS'' := v)) = WORKER_CONNECTIONS env"
  by (auto simp: WORKER_CONNECTIONS_def CELERY_RESULT_BACKEND_def getenv_def
           split: option.splits)

theorem WORKER_CONNECTIONS_is_result_backend_witness:
  "WORKER_CONNECTIONS
     [''WORKER_CONNECTIONS'' \<mapsto> ''500'', ''CELERY_RESULT_BACKEND'' \<mapsto> ''redis://cache'']
   = PyStr ''redis://cache''"
  using WORKER_CONNECTIONS_is_result_backend
    [of "[''WORKER_CONNECTIONS'' \<mapsto> ''500'', ''CELERY_RESULT_BACKEND'' \<mapsto> ''redis://cache'']"]
  by simp

end
